theory Spec2Isabelle
  imports Main "HOL-Library.Sublist"
begin

text \<open>
  The Lambda handler of \<open>lambda_src/handler.py\<close>: health check, fetch with retry,
  validation and transformation of the records, store, metrics. Each function of the
  source is a function here under its own name. Exceptions are values (\<open>Inl\<close> of a sum),
  the collaborators (HTTP client, clock, table, batch writer) are inputs, and the
  effects a run performs are returned as a trace of events. Logging only prints and is
  left out.
\<close>

section \<open>Python values\<close>

text \<open>
  A Python \<open>str\<close> is a sequence of Unicode code points; \<open>len\<close>, slicing and
  \<open>strip\<close> count code points. A string is therefore modelled as the list of its code
  points. \<open>lit\<close> turns an ASCII literal of the source into that form.
\<close>

type_synonym pystr = "nat list"

definition lit :: "string \<Rightarrow> pystr" where
  "lit s = map of_char s"

text \<open>
  What \<open>json.loads\<close> produces. A float is kept by its \<open>repr\<close> text (the pipeline only
  ever tests its type); a dict is the list of its items in insertion order, read with
  \<open>map_of\<close>.
\<close>

datatype json =
    JNull
  | JBool bool
  | JInt int
  | JFloat pystr
  | JStr pystr
  | JList "json list"
  | JDict "(pystr \<times> json) list"

text \<open>
  The module-level configuration, read once from the environment
  (\<open>TABLE_NAME\<close>, \<open>API_URL\<close>, \<open>MAX_RETRIES\<close>). \<open>str_container\<close> is Python's
  \<open>str()\<close> on lists and dicts, which is the interpreter's and is taken as given.
\<close>

record env =
  TABLE_NAME :: pystr
  API_URL :: pystr
  MAX_RETRIES :: int
  str_container :: "json \<Rightarrow> pystr"

subsection \<open>\<open>str()\<close>, \<open>strip()\<close>, \<open>isinstance\<close>\<close>

text \<open>
  \<open>str()\<close> of an \<open>int\<close> is its decimal text, with a minus sign when negative (the
  interpreter's limit on the number of digits of such a conversion is left out); of a
  \<open>bool\<close>, \<open>True\<close> or \<open>False\<close>; of a \<open>str\<close>, the string itself.
\<close>

fun digit_chars :: "nat \<Rightarrow> pystr" where
  "digit_chars n = (if n < 10 then [48 + n] else digit_chars (n div 10) @ [48 + n mod 10])"

declare digit_chars.simps [simp del]

definition str_int :: "int \<Rightarrow> pystr" where
  "str_int i = (if i < 0 then 45 # digit_chars (nat (- i)) else digit_chars (nat i))"

definition str_bool :: "bool \<Rightarrow> pystr" where
  "str_bool b = (if b then lit ''True'' else lit ''False'')"

fun py_str :: "env \<Rightarrow> json \<Rightarrow> pystr" where
  "py_str E (JStr s) = s"
| "py_str E (JInt i) = str_int i"
| "py_str E (JBool b) = str_bool b"
| "py_str E JNull = lit ''None''"
| "py_str E (JFloat r) = r"
| "py_str E (JList xs) = str_container E (JList xs)"
| "py_str E (JDict kvs) = str_container E (JDict kvs)"

text \<open>
  The code points \<open>str.strip()\<close> removes: those for which \<open>str.isspace\<close> holds
  (U+0009..U+000D, U+001C..U+0020, U+0085, U+00A0, U+1680, U+2000..U+200A, U+2028,
  U+2029, U+202F, U+205F, U+3000).
\<close>

definition isspace :: "nat \<Rightarrow> bool" where
  "isspace c =
     ((9 \<le> c \<and> c \<le> 13) \<or> (28 \<le> c \<and> c \<le> 32) \<or> c = 133 \<or> c = 160 \<or> c = 5760 \<or>
      (8192 \<le> c \<and> c \<le> 8202) \<or> c = 8232 \<or> c = 8233 \<or> c = 8239 \<or> c = 8287 \<or> c = 12288)"

definition strip :: "pystr \<Rightarrow> pystr" where
  "strip s = rev (dropWhile isspace (rev (dropWhile isspace s)))"

text \<open>\<open>isinstance(v, (str, int))\<close>; \<open>bool\<close> is a subclass of \<open>int\<close>.\<close>

fun isinstance_str_int :: "json \<Rightarrow> bool" where
  "isinstance_str_int (JStr s) = True"
| "isinstance_str_int (JInt i) = True"
| "isinstance_str_int (JBool b) = True"
| "isinstance_str_int JNull = False"
| "isinstance_str_int (JFloat r) = False"
| "isinstance_str_int (JList xs) = False"
| "isinstance_str_int (JDict kvs) = False"

section \<open>Exceptions and effects\<close>

text \<open>
  The \<open>Retry-After\<close> header of a reply as \<open>int(resp.headers.get("Retry-After", 5))\<close>
  reads it: no header, a text that \<open>int()\<close> parses to a number, or a text it rejects
  (with the message of the \<open>ValueError\<close>).
\<close>

datatype header = Absent | Int_text int | Bad_text string

text \<open>
  Every exception of the program is a value. \<open>HTTPError\<close> carries its status code and
  the \<open>Retry-After\<close> header of its response; \<open>OtherError\<close> is any other exception a
  collaborator raises (a \<open>URLError\<close>, a timeout, a JSON decoding error, a store error),
  by its text. \<open>UnknownUrlType\<close> is the \<open>ValueError("unknown url type: ...")\<close> of
  \<open>urllib.request.Request\<close>. \<open>FetchFailed n e\<close> is
  \<open>RuntimeError(f"Fetch failed after {MAX_RETRIES} attempts: {last_error}")\<close> and
  \<open>TableNotAvailable t\<close> is \<open>RuntimeError(f"DynamoDB table '{TABLE_NAME}' is not available")\<close>.
\<close>

datatype exn =
    HTTPError int header
  | OtherError string
  | ValueError string
  | TypeError
  | AttributeError
  | KeyError pystr
  | UnknownUrlType
  | FetchFailed int "exn option"
  | TableNotAvailable pystr

section \<open>Validation and transformation\<close>

text \<open>\<open>field in item\<close>, \<open>item.get(key)\<close> and \<open>item[field]\<close> on any JSON value.\<close>

fun py_contains :: "json \<Rightarrow> pystr \<Rightarrow> exn + bool" where
  "py_contains (JDict kvs) field = Inr (map_of kvs field \<noteq> None)"
| "py_contains (JList xs) field = Inr (JStr field \<in> set xs)"
| "py_contains (JStr s) field = Inr (sublist field s)"
| "py_contains JNull field = Inl TypeError"
| "py_contains (JBool b) field = Inl TypeError"
| "py_contains (JInt i) field = Inl TypeError"
| "py_contains (JFloat r) field = Inl TypeError"

fun py_get :: "json \<Rightarrow> pystr \<Rightarrow> exn + json" where
  "py_get (JDict kvs) key = Inr (case map_of kvs key of None \<Rightarrow> JNull | Some v \<Rightarrow> v)"
| "py_get (JList xs) key = Inl AttributeError"
| "py_get (JStr s) key = Inl AttributeError"
| "py_get JNull key = Inl AttributeError"
| "py_get (JBool b) key = Inl AttributeError"
| "py_get (JInt i) key = Inl AttributeError"
| "py_get (JFloat r) key = Inl AttributeError"

fun py_getitem :: "json \<Rightarrow> pystr \<Rightarrow> exn + json" where
  "py_getitem (JDict kvs) key =
     (case map_of kvs key of None \<Rightarrow> Inl (KeyError key) | Some v \<Rightarrow> Inr v)"
| "py_getitem (JList xs) key = Inl TypeError"
| "py_getitem (JStr s) key = Inl TypeError"
| "py_getitem JNull key = Inl TypeError"
| "py_getitem (JBool b) key = Inl TypeError"
| "py_getitem (JInt i) key = Inl TypeError"
| "py_getitem (JFloat r) key = Inl TypeError"

definition required :: "pystr list" where
  "required = [lit ''id'', lit ''title'', lit ''body'', lit ''userId'']"

text \<open>
  The loop of \<open>validate_item\<close> over the fields still to check. Each warning evaluates
  \<open>item.get("id")\<close> for the log line before \<open>False\<close> is returned.
\<close>

fun validate_fields :: "json \<Rightarrow> pystr list \<Rightarrow> exn + bool" where
  "validate_fields item [] = Inr True"
| "validate_fields item (field # rest) =
     (case py_contains item field of
        Inl e \<Rightarrow> Inl e
      | Inr present \<Rightarrow>
          if \<not> present then
            (case py_get item (lit ''id'') of Inl e \<Rightarrow> Inl e | Inr item_id \<Rightarrow> Inr False)
          else
            (case py_getitem item field of
               Inl e \<Rightarrow> Inl e
             | Inr v \<Rightarrow>
                 if \<not> isinstance_str_int v then
                   (case py_get item (lit ''id'') of Inl e \<Rightarrow> Inl e | Inr item_id \<Rightarrow> Inr False)
                 else validate_fields item rest))"

definition validate_item :: "json \<Rightarrow> exn + bool" where
  "validate_item item = validate_fields item required"

record nrec =
  id' :: pystr
  timestamp :: pystr
  title :: pystr
  body :: pystr
  user_id :: pystr
  source_url :: pystr
  processed_at :: pystr

text \<open>
  \<open>transform_item\<close> reads the clock twice; \<open>t1\<close> and \<open>t2\<close> are the two readings
  (\<open>datetime.now(timezone.utc).isoformat()\<close>), in the order of the dict display.
\<close>

definition transform_item :: "env \<Rightarrow> pystr \<Rightarrow> pystr \<Rightarrow> json \<Rightarrow> exn + nrec" where
  "transform_item E t1 t2 item =
     (case py_getitem item (lit ''id'') of
        Inl e \<Rightarrow> Inl e
      | Inr i \<Rightarrow>
     (case py_getitem item (lit ''title'') of
        Inl e \<Rightarrow> Inl e
      | Inr t \<Rightarrow>
     (case py_getitem item (lit ''body'') of
        Inl e \<Rightarrow> Inl e
      | Inr b \<Rightarrow>
     (case py_getitem item (lit ''userId'') of
        Inl e \<Rightarrow> Inl e
      | Inr u \<Rightarrow>
          Inr \<lparr>id' = py_str E i,
               timestamp = t1,
               title = take 500 (strip (py_str E t)),
               body = take 2000 (strip (py_str E b)),
               user_id = py_str E u,
               source_url = API_URL E,
               processed_at = t2\<rparr>))))"

text \<open>
  The loop of \<open>process_data\<close> with its two locals \<open>valid\<close> and \<open>invalid\<close>.
  \<open>now k\<close> is the \<open>k\<close>-th clock reading made by \<open>transform_item\<close> in the run; \<open>c\<close>
  counts the readings made so far. \<open>invalid\<close> is the count the function logs as
  rejected.
\<close>

fun process_loop ::
  "env \<Rightarrow> (nat \<Rightarrow> pystr) \<Rightarrow> nat \<Rightarrow> json list \<Rightarrow> nrec list \<Rightarrow> nat \<Rightarrow> exn + (nrec list \<times> nat)"
where
  "process_loop E now c [] valid invalid = Inr (valid, invalid)"
| "process_loop E now c (item # rest) valid invalid =
     (case validate_item item of
        Inl e \<Rightarrow> Inl e
      | Inr ok \<Rightarrow>
          if ok then
            (case transform_item E (now c) (now (c + 1)) item of
               Inl e \<Rightarrow> Inl e
             | Inr r \<Rightarrow> process_loop E now (c + 2) rest (valid @ [r]) invalid)
          else process_loop E now c rest valid (invalid + 1))"

text \<open>
  \<open>for item in raw\<close>: a list yields its elements, a dict its keys, a string its
  characters; anything else is not iterable.
\<close>

fun py_iter :: "json \<Rightarrow> exn + json list" where
  "py_iter (JList xs) = Inr xs"
| "py_iter (JDict kvs) = Inr (map (\<lambda>kv. JStr (fst kv)) kvs)"
| "py_iter (JStr s) = Inr (map (\<lambda>c. JStr [c]) s)"
| "py_iter JNull = Inl TypeError"
| "py_iter (JBool b) = Inl TypeError"
| "py_iter (JInt i) = Inl TypeError"
| "py_iter (JFloat r) = Inl TypeError"

definition process_data :: "env \<Rightarrow> (nat \<Rightarrow> pystr) \<Rightarrow> json \<Rightarrow> exn + nrec list" where
  "process_data E now raw =
     (case py_iter raw of
        Inl e \<Rightarrow> Inl e
      | Inr items \<Rightarrow>
          (case process_loop E now 0 items [] 0 of
             Inl e \<Rightarrow> Inl e
           | Inr (valid, invalid) \<Rightarrow> Inr valid))"

section \<open>Fetch with retry\<close>

text \<open>
  What one call of \<open>urllib.request.urlopen\<close> does: it raises, or it returns a response
  with a status, a \<open>Retry-After\<close> header and a body. The body is what
  \<open>json.loads(resp.read().decode("utf-8"))\<close> makes of it: a JSON value, or the exception
  raised on the way.
\<close>

datatype content = Content json | Unreadable exn

datatype reply = Response int header content | Raises exn

text \<open>The effects of a run, in the order they happen.\<close>

datatype metric_value = Count int | Milliseconds

datatype event =
    Sleep int
  | Batch_write pystr "nrec list"
  | Put_metric string metric_value

text \<open>
  \<open>time.sleep(n)\<close> raises \<open>ValueError\<close> on a negative length. (The interpreter's upper
  limit on a sleep length, far beyond any wait of a real run, is left out.)
\<close>

definition py_sleep :: "int \<Rightarrow> exn + event list" where
  "py_sleep n =
     (if n < 0 then Inl (ValueError ''sleep length must be non-negative'') else Inr [Sleep n])"

text \<open>\<open>len(data)\<close> is defined on lists, dicts and strings.\<close>

fun has_len :: "json \<Rightarrow> bool" where
  "has_len (JList xs) = True"
| "has_len (JDict kvs) = True"
| "has_len (JStr s) = True"
| "has_len JNull = False"
| "has_len (JBool b) = False"
| "has_len (JInt i) = False"
| "has_len (JFloat r) = False"

text \<open>
  \<open>urllib.request.Request(url, headers=...)\<close>, the first statement of the \<open>try\<close>
  block. Its constructor unwraps the URL (\<open>unwrap\<close>: surrounding whitespace, an
  enclosing \<open><...>\<close>, a leading \<open>URL:\<close>), cuts the fragment after the last \<open>#\<close>
  (\<open>_splittag\<close>) and reads the scheme with the pattern \<open>([^/:]+):(.*)\<close> matched at the
  start (\<open>_splittype\<close>); without a scheme it raises \<open>ValueError\<close>.
\<close>

definition unwrap :: "pystr \<Rightarrow> pystr" where
  "unwrap url =
     (let u = strip url;
          u = (if take 1 u = lit ''<'' \<and> take 1 (rev u) = lit ''>''
               then strip (butlast (tl u)) else u)
      in if take 4 u = lit ''URL:'' then strip (drop 4 u) else u)"

definition splittag :: "pystr \<Rightarrow> pystr" where
  "splittag u = (if 35 \<in> set u then rev (tl (dropWhile (\<lambda>c. c \<noteq> 35) (rev u))) else u)"

definition has_type :: "pystr \<Rightarrow> bool" where
  "has_type u =
     (let scheme = takeWhile (\<lambda>c. c \<noteq> 47 \<and> c \<noteq> 58) u
      in scheme \<noteq> [] \<and> take 1 (drop (length scheme) u) = [58])"

definition Request :: "pystr \<Rightarrow> exn option" where
  "Request url = (if has_type (splittag (unwrap url)) then None else Some UnknownUrlType)"

text \<open>
  The \<open>try\<close> block of one attempt: the request is built, then \<open>urlopen\<close> is called
  and \<open>rep\<close> is what that call does. \<open>Inl exc\<close>: the block raised \<open>exc\<close>.
  \<open>Inr (evs, Some data)\<close>: \<open>return data\<close>. \<open>Inr (evs, None)\<close>: \<open>continue\<close>.
\<close>

definition try_block :: "pystr \<Rightarrow> reply \<Rightarrow> exn + (event list \<times> json option)" where
  "try_block url rep =
     (case Request url of
        Some exc \<Rightarrow> Inl exc
      | None \<Rightarrow>
     (case rep of
        Raises exc \<Rightarrow> Inl exc
      | Response status h b \<Rightarrow>
          if status = 429 then
            (case h of
               Bad_text msg \<Rightarrow> Inl (ValueError msg)
             | Int_text n \<Rightarrow>
                 (case py_sleep n of Inl exc \<Rightarrow> Inl exc | Inr evs \<Rightarrow> Inr (evs, None))
             | Absent \<Rightarrow>
                 (case py_sleep 5 of Inl exc \<Rightarrow> Inl exc | Inr evs \<Rightarrow> Inr (evs, None)))
          else
            (case b of
               Unreadable exc \<Rightarrow> Inl exc
             | Content data \<Rightarrow> if has_len data then Inr ([], Some data) else Inl TypeError)))"

text \<open>
  The two \<open>except\<close> clauses: the wait each of them sleeps. Both record the exception
  as \<open>last_error\<close>.
\<close>

definition except_wait :: "exn \<Rightarrow> int \<Rightarrow> int" where
  "except_wait exc attempt =
     (case exc of
        HTTPError code h \<Rightarrow> if code = 429 then 2 ^ nat attempt else 2 ^ nat attempt
      | _ \<Rightarrow> 2 ^ nat attempt)"

text \<open>
  The loop over the attempts still to make; \<open>urlopen url attempt\<close> is what the call of
  \<open>urlopen\<close> in that attempt does (when the attempt gets that far). An \<open>except\<close> clause sleeps \<open>2 ** attempt\<close>, a positive length, so
  that sleep raises nothing. After the last attempt the function raises.
\<close>

fun fetch_loop ::
  "env \<Rightarrow> (pystr \<Rightarrow> int \<Rightarrow> reply) \<Rightarrow> pystr \<Rightarrow> int list \<Rightarrow> exn option \<Rightarrow> event list \<times> (exn + json)"
where
  "fetch_loop E urlopen url [] last_error = ([], Inl (FetchFailed (MAX_RETRIES E) last_error))"
| "fetch_loop E urlopen url (attempt # rest) last_error =
     (case try_block url (urlopen url attempt) of
        Inr (evs, Some data) \<Rightarrow> (evs, Inr data)
      | Inr (evs, None) \<Rightarrow>
          (case fetch_loop E urlopen url rest last_error of (evs', res) \<Rightarrow> (evs @ evs', res))
      | Inl exc \<Rightarrow>
          (case fetch_loop E urlopen url rest (Some exc) of
             (evs', res) \<Rightarrow> (Sleep (except_wait exc attempt) # evs', res)))"

definition fetch_data :: "env \<Rightarrow> (pystr \<Rightarrow> int \<Rightarrow> reply) \<Rightarrow> pystr \<Rightarrow> event list \<times> (exn + json)" where
  "fetch_data E urlopen url = fetch_loop E urlopen url [1..MAX_RETRIES E] None"

section \<open>The handler\<close>

text \<open>
  The collaborators of one invocation: the table description (its \<open>TableStatus\<close>, or the
  exception raised), the HTTP client, the clock of \<open>transform_item\<close>, and the batch
  writer (\<open>None\<close>: every item written).
\<close>

record world =
  describe_table :: "pystr \<Rightarrow> exn + pystr"
  urlopen :: "pystr \<Rightarrow> int \<Rightarrow> reply"
  now :: "nat \<Rightarrow> pystr"
  batch_writer :: "pystr \<Rightarrow> nrec list \<Rightarrow> exn option"

definition health_check :: "env \<Rightarrow> world \<Rightarrow> bool" where
  "health_check E W =
     (case describe_table W (TABLE_NAME E) of
        Inl exc \<Rightarrow> False
      | Inr status \<Rightarrow> status = lit ''ACTIVE'')"

definition store_data :: "env \<Rightarrow> world \<Rightarrow> nrec list \<Rightarrow> event list \<times> (exn + int)" where
  "store_data E W items =
     ([Batch_write (TABLE_NAME E) items],
      case batch_writer W (TABLE_NAME E) items of
        Some exc \<Rightarrow> Inl exc
      | None \<Rightarrow> Inr (int (length items)))"

text \<open>\<open>put_metric\<close> catches every exception of the metrics client.\<close>

definition put_metric :: "string \<Rightarrow> metric_value \<Rightarrow> event list" where
  "put_metric name v = [Put_metric name v]"

datatype payload = OK int | ERROR exn

datatype result = Result (statusCode: int) (payload: payload)

text \<open>The \<open>try\<close> block of \<open>lambda_handler\<close>: the stored count, or the exception.\<close>

definition handler_try :: "env \<Rightarrow> world \<Rightarrow> event list \<times> (exn + int)" where
  "handler_try E W =
     (if \<not> health_check E W then ([], Inl (TableNotAvailable (TABLE_NAME E)))
      else
        (case fetch_data E (urlopen W) (API_URL E) of
           (evs, Inl exc) \<Rightarrow> (evs, Inl exc)
         | (evs, Inr raw_data) \<Rightarrow>
             (case process_data E (now W) raw_data of
                Inl exc \<Rightarrow> (evs, Inl exc)
              | Inr processed \<Rightarrow>
                  if processed = [] then
                    (evs, Inl (ValueError ''No valid records after validation''))
                  else
                    (case store_data E W processed of
                       (evs', Inl exc) \<Rightarrow> (evs @ evs', Inl exc)
                     | (evs', Inr stored_count) \<Rightarrow>
                         (evs @ evs'
                            @ put_metric ''ProcessedRecords'' (Count stored_count)
                            @ put_metric ''ExecutionDurationMs'' Milliseconds
                            @ put_metric ''Errors'' (Count 0),
                          Inr stored_count)))))"

definition lambda_handler :: "env \<Rightarrow> world \<Rightarrow> event list \<times> result" where
  "lambda_handler E W =
     (case handler_try E W of
        (evs, Inr stored_count) \<Rightarrow> (evs, Result 200 (OK stored_count))
      | (evs, Inl exc) \<Rightarrow> (evs @ put_metric ''Errors'' (Count 1), Result 500 (ERROR exc)))"

section \<open>Notions used to state the properties\<close>

fun is_dict :: "json \<Rightarrow> bool" where
  "is_dict (JDict kvs) = True"
| "is_dict JNull = False"
| "is_dict (JBool b) = False"
| "is_dict (JInt i) = False"
| "is_dict (JFloat r) = False"
| "is_dict (JStr s) = False"
| "is_dict (JList xs) = False"

text \<open>A field of a record is admitted: it is present and holds a \<open>str\<close> or an \<open>int\<close>.\<close>

definition admitted :: "(pystr \<times> json) list \<Rightarrow> pystr \<Rightarrow> bool" where
  "admitted kvs field =
     (case map_of kvs field of None \<Rightarrow> False | Some v \<Rightarrow> isinstance_str_int v)"

text \<open>A record is accepted: \<open>validate_item\<close> returns \<open>True\<close> on it.\<close>

definition accepted :: "json \<Rightarrow> bool" where
  "accepted item = (validate_item item = Inr True)"

subsection \<open>Sample inputs\<close>

definition example_env :: env where
  "example_env =
     \<lparr>TABLE_NAME = lit ''iac-data-store'',
      API_URL = lit ''https://jsonplaceholder.typicode.com/posts'',
      MAX_RETRIES = 3,
      str_container = (\<lambda>v. lit ''[]'')\<rparr>"

definition example_clock :: "nat \<Rightarrow> pystr" where
  "example_clock k = str_int (int k)"

definition example_record :: json where
  "example_record =
     JDict [(lit ''userId'', JInt 1), (lit ''id'', JInt 7),
            (lit ''title'', JStr (lit '' qui est esse '')), (lit ''body'', JStr (lit ''est rerum''))]"

definition example_record_out :: nrec where
  "example_record_out =
     \<lparr>id' = lit ''7'', timestamp = lit ''0'', title = lit ''qui est esse'',
           body = lit ''est rerum'', user_id = lit ''1'',
           source_url = lit ''https://jsonplaceholder.typicode.com/posts'',
           processed_at = lit ''1''\<rparr>"

definition no_user_record :: json where
  "no_user_record =
     JDict [(lit ''id'', JInt 8), (lit ''title'', JStr (lit ''t'')), (lit ''body'', JStr (lit ''b''))]"

definition float_id_record :: json where
  "float_id_record =
     JDict [(lit ''id'', JFloat (lit ''8.5'')), (lit ''title'', JStr (lit ''t'')),
            (lit ''body'', JStr (lit ''b'')), (lit ''userId'', JInt 1)]"

definition empty_id_record :: json where
  "empty_id_record =
     JDict [(lit ''id'', JStr []), (lit ''title'', JStr (lit ''t'')),
            (lit ''body'', JStr (lit ''b'')), (lit ''userId'', JInt 1)]"

definition long_record :: json where
  "long_record =
     JDict [(lit ''id'', JInt 7),
            (lit ''title'', JStr (32 # replicate 501 97 @ [10])),
            (lit ''body'', JStr (replicate 2001 98 @ [32, 32])),
            (lit ''userId'', JInt 1)]"

definition bool_record :: json where
  "bool_record =
     JDict [(lit ''id'', JBool True), (lit ''title'', JBool False),
            (lit ''body'', JBool True), (lit ''userId'', JBool False)]"

subsection \<open>Notions and sample replies for the fetch loop\<close>

text \<open>
  What \<open>urlopen\<close> can deliver. The handler installs no opener, and the default opener
  of \<open>urllib\<close> raises \<open>HTTPError\<close> for every response whose status is not 2xx
  (\<open>HTTPErrorProcessor\<close>): a response that is returned has a 2xx status.
\<close>

definition stock :: "reply \<Rightarrow> bool" where
  "stock rep = (case rep of Raises exc \<Rightarrow> True | Response status h b \<Rightarrow> 200 \<le> status \<and> status < 300)"

text \<open>An attempt succeeds: its \<open>try\<close> block reaches \<open>return data\<close>.\<close>

definition succeeds :: "pystr \<Rightarrow> reply \<Rightarrow> bool" where
  "succeeds url rep = (case try_block url rep of Inr (evs, Some data) \<Rightarrow> True | _ \<Rightarrow> False)"

text \<open>
  A reply is a rate limit (429) that carries an advisory duration: its \<open>Retry-After\<close>
  header is present.
\<close>

fun advised :: "reply \<Rightarrow> bool" where
  "advised (Raises (HTTPError code h)) = (code = 429 \<and> h \<noteq> Absent)"
| "advised (Raises (OtherError msg)) = False"
| "advised (Raises (ValueError msg)) = False"
| "advised (Raises TypeError) = False"
| "advised (Raises AttributeError) = False"
| "advised (Raises (KeyError k)) = False"
| "advised (Raises UnknownUrlType) = False"
| "advised (Raises (FetchFailed n e)) = False"
| "advised (Raises (TableNotAvailable t)) = False"
| "advised (Response status h b) = (status = 429 \<and> h \<noteq> Absent)"

definition raises_429_retry_after_7 :: "pystr \<Rightarrow> int \<Rightarrow> reply" where
  "raises_429_retry_after_7 url attempt = Raises (HTTPError 429 (Int_text 7))"

definition raises_429 :: "pystr \<Rightarrow> int \<Rightarrow> reply" where
  "raises_429 url attempt = Raises (HTTPError 429 Absent)"

definition fails_then_throttled :: "pystr \<Rightarrow> int \<Rightarrow> reply" where
  "fails_then_throttled url attempt =
     (if attempt = 1 then Raises (OtherError ''timed out'')
      else if attempt = 2 then Raises (HTTPError 429 Absent)
      else Response 200 Absent (Content (JList [example_record])))"

definition timeout_then_throttled :: "pystr \<Rightarrow> int \<Rightarrow> reply" where
  "timeout_then_throttled url attempt =
     (if attempt = 1 then Raises (OtherError ''timed out'')
      else if attempt = 2 then Raises (HTTPError 429 (Int_text 1))
      else Raises (HTTPError 503 Absent))"

definition bool_id_record :: json where
  "bool_id_record =
     JDict [(lit ''id'', JBool True), (lit ''title'', JStr (lit ''t'')),
            (lit ''body'', JStr (lit ''b'')), (lit ''userId'', JInt 1)]"

text \<open>The store stage shows in the trace as a \<open>Batch_write\<close> event.\<close>

fun is_batch_write :: "event \<Rightarrow> bool" where
  "is_batch_write (Batch_write table items) = True"
| "is_batch_write (Sleep n) = False"
| "is_batch_write (Put_metric name v) = False"

definition rejecting_world :: world where
  "rejecting_world =
     \<lparr>describe_table = (\<lambda>table. Inr (lit ''ACTIVE'')),
      urlopen = (\<lambda>url attempt. Response 200 Absent (Content (JList [no_user_record, float_id_record]))),
      now = example_clock,
      batch_writer = (\<lambda>table items. None)\<rparr>"


section \<open>Properties\<close>

lemma validate_fields_dict:
  "validate_fields (JDict kvs) fs = Inr (list_all (admitted kvs) fs)"
  by (induction fs) (auto simp: admitted_def split: option.splits)

lemma validate_item_dict:
  "validate_item (JDict kvs) = Inr (list_all (admitted kvs) required)"
  by (simp add: validate_item_def validate_fields_dict)

lemma validate_fields_non_dict:
  "\<not> is_dict item \<Longrightarrow> fs \<noteq> [] \<Longrightarrow> \<exists>e. validate_fields item fs = Inl e"
  by (cases item; cases fs) (auto split: sum.splits)

lemma required_nonempty: "required \<noteq> []"
  by (simp add: required_def)

lemma validate_item_non_dict:
  "\<not> is_dict item \<Longrightarrow> \<exists>e. validate_item item = Inl e"
  unfolding validate_item_def by (rule validate_fields_non_dict [OF _ required_nonempty])

lemma validate_item_True_dict:
  assumes "validate_item item = Inr True"
  obtains kvs where "item = JDict kvs" and "list_all (admitted kvs) required"
proof (cases "is_dict item")
  case True
  then obtain kvs where "item = JDict kvs" by (cases item) auto
  with assms that show ?thesis by (simp add: validate_item_dict)
next
  case False
  from validate_item_non_dict [OF this] assms show ?thesis by auto
qed

lemma admitted_Some:
  "admitted kvs f \<Longrightarrow> \<exists>v. map_of kvs f = Some v \<and> isinstance_str_int v"
  by (auto simp: admitted_def split: option.splits)

lemma transform_item_dict:
  assumes "map_of kvs (lit ''id'') = Some i" and "map_of kvs (lit ''title'') = Some t"
    and "map_of kvs (lit ''body'') = Some b" and "map_of kvs (lit ''userId'') = Some u"
  shows "transform_item E t1 t2 (JDict kvs) =
     Inr \<lparr>id' = py_str E i, timestamp = t1, title = take 500 (strip (py_str E t)),
          body = take 2000 (strip (py_str E b)), user_id = py_str E u,
          source_url = API_URL E, processed_at = t2\<rparr>"
  using assms by (simp add: transform_item_def)

lemma transform_item_validated:
  assumes "validate_item item = Inr True"
  shows "\<exists>r. transform_item E t1 t2 item = Inr r"
proof -
  from assms obtain kvs where item: "item = JDict kvs" and all: "list_all (admitted kvs) required"
    by (rule validate_item_True_dict)
  from all have "admitted kvs (lit ''id'')" "admitted kvs (lit ''title'')"
    "admitted kvs (lit ''body'')" "admitted kvs (lit ''userId'')"
    by (simp_all add: required_def)
  then obtain i t b u where "map_of kvs (lit ''id'') = Some i" "map_of kvs (lit ''title'') = Some t"
    "map_of kvs (lit ''body'') = Some b" "map_of kvs (lit ''userId'') = Some u"
    by (blast dest: admitted_Some)
  then show ?thesis unfolding item by (simp add: transform_item_dict)
qed

lemma process_loop_invalid_Suc:
  "process_loop E clk c items valid (Suc invalid) =
     map_sum id (\<lambda>(v, n). (v, Suc n)) (process_loop E clk c items valid invalid)"
  by (induction items arbitrary: c valid invalid) (auto split: sum.splits)

lemma process_loop_drop_rejected:
  assumes "validate_item item = Inr False"
  shows "process_loop E clk c (pre @ item # post) valid invalid =
     map_sum id (\<lambda>(v, n). (v, Suc n)) (process_loop E clk c (pre @ post) valid invalid)"
  using assms
  by (induction pre arbitrary: c valid invalid)
     (auto simp: process_loop_invalid_Suc split: sum.splits)

lemma process_loop_dicts:
  assumes "\<forall>item\<in>set items. is_dict item"
  shows "\<exists>new. process_loop E clk c items valid invalid =
            Inr (valid @ new, invalid + length (filter (\<lambda>item. \<not> accepted item) items))
          \<and> map Inr new =
              map (\<lambda>(j, item). transform_item E (clk (c + 2 * j)) (clk (c + 2 * j + 1)) item)
                (enumerate 0 (filter accepted items))"
  using assms
proof (induction items arbitrary: c valid invalid)
  case Nil
  then show ?case by simp
next
  case (Cons item items)
  then obtain kvs where item: "item = JDict kvs" by (cases item) auto
  from Cons.prems have rest: "\<forall>item\<in>set items. is_dict item" by simp
  show ?case
  proof (cases "accepted item")
    case True
    then have ok: "validate_item item = Inr True" by (simp add: accepted_def)
    from transform_item_validated [OF ok] obtain r
      where r: "transform_item E (clk c) (clk (c + 1)) item = Inr r" by blast
    from Cons.IH [OF rest, of "c + 2" "valid @ [r]" invalid] obtain new where
      new: "process_loop E clk (c + 2) items (valid @ [r]) invalid =
              Inr ((valid @ [r]) @ new, invalid + length (filter (\<lambda>item. \<not> accepted item) items))"
      and tr: "map Inr new =
              map (\<lambda>(j, item). transform_item E (clk (c + 2 + 2 * j)) (clk (c + 2 + 2 * j + 1)) item)
                (enumerate 0 (filter accepted items))"
      by blast
    have "process_loop E clk c (item # items) valid invalid =
            Inr (valid @ (r # new), invalid + length (filter (\<lambda>item. \<not> accepted item) (item # items)))"
      using ok r new True by simp
    moreover have "map Inr (r # new) =
              map (\<lambda>(j, item). transform_item E (clk (c + 2 * j)) (clk (c + 2 * j + 1)) item)
                (enumerate 0 (filter accepted (item # items)))"
      using True r tr by (simp add: enumerate_Suc_eq[of 0] comp_def case_prod_unfold add.assoc)
    ultimately show ?thesis by blast
  next
    case False
    then have no: "validate_item item = Inr False"
      unfolding item accepted_def by (simp add: validate_item_dict)
    from Cons.IH [OF rest, of c valid "invalid + 1"] obtain new where
      new: "process_loop E clk c items valid (invalid + 1) =
              Inr (valid @ new, invalid + 1 + length (filter (\<lambda>item. \<not> accepted item) items))"
      and tr: "map Inr new =
              map (\<lambda>(j, item). transform_item E (clk (c + 2 * j)) (clk (c + 2 * j + 1)) item)
                (enumerate 0 (filter accepted items))"
      by blast
    show ?thesis using no new tr False by simp
  qed
qed

lemma process_loop_sound:
  assumes "process_loop E clk c items valid invalid = Inr (valid', invalid')"
    and "r \<in> set valid'"
  shows "r \<in> set valid \<or>
     (\<exists>item\<in>set items. \<exists>t1 t2. validate_item item = Inr True \<and> transform_item E t1 t2 item = Inr r)"
  using assms
proof (induction items arbitrary: c valid invalid)
  case Nil
  then show ?case by simp
next
  case (Cons item items)
  show ?case
  proof (cases "validate_item item")
    case (Inl e)
    with Cons.prems show ?thesis by simp
  next
    case (Inr ok)
    show ?thesis
    proof (cases ok)
      case True
      with Inr Cons.prems obtain r0 where
        r0: "transform_item E (clk c) (clk (c + 1)) item = Inr r0"
        and loop: "process_loop E clk (c + 2) items (valid @ [r0]) invalid = Inr (valid', invalid')"
        by (auto split: sum.splits)
      from Cons.IH [OF loop Cons.prems(2)] show ?thesis
        using r0 Inr True by auto
    next
      case False
      with Inr Cons.prems have
        loop: "process_loop E clk c items valid (invalid + 1) = Inr (valid', invalid')"
        by simp
      from Cons.IH [OF loop Cons.prems(2)] show ?thesis by auto
    qed
  qed
qed

subsection \<open>Facts about \<open>str()\<close> and \<open>process_data\<close>\<close>

lemma digit_chars_nonempty: "digit_chars n \<noteq> []"
  by (subst digit_chars.simps) simp

lemma str_int_nonempty: "str_int i \<noteq> []"
  by (simp add: str_int_def digit_chars_nonempty)

lemma str_bool_nonempty: "str_bool b \<noteq> []"
  by (simp add: str_bool_def lit_def)

lemma py_str_empty_iff:
  "isinstance_str_int v \<Longrightarrow> (py_str E v = []) = (v = JStr [])"
  by (cases v) (simp_all add: str_int_nonempty str_bool_nonempty)

lemma process_data_list:
  "process_data E clk (JList raw) = map_sum id fst (process_loop E clk 0 raw [] 0)"
  by (simp add: process_data_def split: sum.splits prod.splits)

lemma example_record_accepted: "accepted example_record"
  by (simp add: accepted_def example_record_def validate_item_dict admitted_def required_def lit_def)

subsection \<open>The sample record\<close>

lemma example_record_validates: "validate_item example_record = Inr True"
  by (simp add: example_record_def validate_item_dict admitted_def required_def lit_def)

lemma str_int_7: "str_int 7 = lit ''7''" by code_simp
lemma str_int_1: "str_int 1 = lit ''1''" by code_simp
lemma example_clock_0: "example_clock 0 = lit ''0''" unfolding example_clock_def by code_simp
lemma example_clock_1: "example_clock (Suc 0) = lit ''1''" unfolding example_clock_def by code_simp
lemma strip_title: "strip (lit '' qui est esse '') = lit ''qui est esse''"
  by (simp add: strip_def lit_def isspace_def)
lemma strip_body: "strip (lit ''est rerum'') = lit ''est rerum''"
  by (simp add: strip_def lit_def isspace_def)

lemma transform_example_record:
  "transform_item example_env t1 t2 example_record = Inr (example_record_out\<lparr>timestamp := t1, processed_at := t2\<rparr>)"
  unfolding example_record_def
  apply (subst transform_item_dict [where i = "JInt 7" and t = "JStr (lit '' qui est esse '')" and b = "JStr (lit ''est rerum'')" and u = "JInt 1"])
      apply (simp_all add: lit_def)[4]
  apply (simp add: str_int_7 str_int_1 strip_title strip_body example_record_out_def example_env_def)
  apply (simp add: lit_def)
  done

lemma process_example_record:
  "process_data example_env example_clock (JList [example_record]) = Inr [example_record_out]"
  by (simp add: process_data_def example_record_validates transform_example_record
      example_clock_0 example_clock_1) (simp add: example_record_out_def)

lemma strip_padded_replicate:
  assumes "\<not> isspace c" and "\<forall>x\<in>set pre. isspace x" and "\<forall>x\<in>set post. isspace x"
  shows "strip (pre @ replicate (Suc n) c @ post) = replicate (Suc n) c"
proof -
  have front: "dropWhile isspace (pre @ replicate (Suc n) c @ post) = replicate (Suc n) c @ post"
    using assms(1,2) by (simp add: dropWhile_append)
  have "dropWhile isspace (rev post @ rev (replicate (Suc n) c)) =
          dropWhile isspace (rev (replicate (Suc n) c))"
    by (rule dropWhile_append2) (use assms(3) in auto)
  also have "\<dots> = rev (replicate (Suc n) c)"
    using assms(1) by (simp add: replicate_append_same)
  finally show ?thesis
    unfolding strip_def front by simp
qed

lemma strip_str_bool: "take n (strip (str_bool b)) = take n (str_bool b)"
  by (simp add: str_bool_def strip_def lit_def isspace_def)

lemma take_str_bool: "4 < n \<Longrightarrow> take n (str_bool b) = str_bool b"
  by (simp add: str_bool_def lit_def)

subsection \<open>Facts about the fetch loop\<close>

lemma upto_1_3: "[1..3] = [1, 2, 3::int]"
  by (simp add: upto.simps)

lemma max_retries_example: "MAX_RETRIES example_env = 3"
  by (simp add: example_env_def)

lemma request_example_url: "Request (API_URL example_env) = None"
  by (simp add: example_env_def Request_def has_type_def splittag_def unwrap_def strip_def
      isspace_def lit_def Let_def)

lemma request_no_scheme: "Request [] = Some UnknownUrlType"
  by (simp add: Request_def has_type_def splittag_def unwrap_def strip_def lit_def)

lemma except_wait_eq: "except_wait exc attempt = 2 ^ nat attempt"
  by (cases exc) (simp_all add: except_wait_def)

lemma try_block_continue:
  "try_block url rep = Inr (evs, None) \<Longrightarrow> \<exists>n. evs = [Sleep n]"
  by (auto simp: try_block_def py_sleep_def
      split: option.splits reply.splits header.splits content.splits if_splits)

lemma try_block_stock_fails:
  assumes "stock rep" and "\<not> succeeds url rep"
  shows "\<exists>exc. try_block url rep = Inl exc"
  using assms
  by (auto simp: stock_def succeeds_def try_block_def
      split: option.splits reply.splits content.splits if_splits)

lemma fetch_loop_prefix:
  assumes "\<forall>b\<in>set pre. \<not> succeeds url (get url b)"
  shows "\<exists>evs le'. length evs = length pre
          \<and> fetch_loop E get url (pre @ rest) le =
              (evs @ fst (fetch_loop E get url rest le'), snd (fetch_loop E get url rest le'))"
  using assms
proof (induction pre arbitrary: le)
  case Nil
  show ?case by (rule exI [of _ "[]"], rule exI [of _ le]) simp
next
  case (Cons a pre)
  from Cons.prems have rest: "\<forall>b\<in>set pre. \<not> succeeds url (get url b)"
    and a: "\<not> succeeds url (get url a)" by simp_all
  show ?case
  proof (cases "try_block url (get url a)")
    case (Inl exc)
    from Cons.IH [OF rest, of "Some exc"] obtain evs le' where
      "length evs = length pre"
      "fetch_loop E get url (pre @ rest) (Some exc) =
         (evs @ fst (fetch_loop E get url rest le'), snd (fetch_loop E get url rest le'))"
      by blast
    then show ?thesis
      using Inl by (intro exI [of _ "Sleep (except_wait exc a) # evs"] exI [of _ le']) simp
  next
    case (Inr out)
    obtain evs0 res where out: "out = (evs0, res)" by (cases out)
    with a Inr have res: "res = None"
      by (cases res) (simp_all add: succeeds_def)
    from try_block_continue Inr out res obtain n where n: "evs0 = [Sleep n]" by blast
    from Cons.IH [OF rest, of le] obtain evs le' where
      "length evs = length pre"
      "fetch_loop E get url (pre @ rest) le =
         (evs @ fst (fetch_loop E get url rest le'), snd (fetch_loop E get url rest le'))"
      by blast
    then show ?thesis
      using Inr out res n by (intro exI [of _ "Sleep n # evs"] exI [of _ le']) simp
  qed
qed

lemma upto_split_at:
  "1 \<le> a \<Longrightarrow> a \<le> m \<Longrightarrow> [1..m] = [1..a - 1] @ a # [a + 1..m]"
proof -
  assume a: "1 \<le> a" "a \<le> m"
  then have "[1..m] = [1..a] @ [a + 1..m]" by (rule upto_split2)
  also have "[1..a] = [1..a - 1] @ [a]" using a(1) by (rule upto_rec2)
  finally show ?thesis by simp
qed

lemma fetch_loop_head_raises:
  "try_block url (get url a) = Inl exc \<Longrightarrow>
     fetch_loop E get url (a # rest) le =
       (Sleep (2 ^ nat a) # fst (fetch_loop E get url rest (Some exc)),
        snd (fetch_loop E get url rest (Some exc)))"
  by (simp add: except_wait_eq split: prod.splits)

lemma fetch_data_reaches:
  assumes "1 \<le> a" and "a \<le> MAX_RETRIES E"
    and "\<forall>b\<in>{1..<a}. \<not> succeeds url (get url b)"
  shows "\<exists>evs le'. length evs = nat (a - 1)
          \<and> fetch_data E get url =
              (evs @ fst (fetch_loop E get url (a # [a + 1..MAX_RETRIES E]) le'),
               snd (fetch_loop E get url (a # [a + 1..MAX_RETRIES E]) le'))"
proof -
  have pre: "\<forall>b\<in>set [1..a - 1]. \<not> succeeds url (get url b)"
    using assms(3) by auto
  from fetch_loop_prefix
    [where get = get and url = url and E = E and rest = "a # [a + 1..MAX_RETRIES E]"
       and le = None, OF pre]
  obtain evs le' where
    len: "length evs = length [1..a - 1]"
    and run: "fetch_loop E get url ([1..a - 1] @ a # [a + 1..MAX_RETRIES E]) None =
       (evs @ fst (fetch_loop E get url (a # [a + 1..MAX_RETRIES E]) le'),
        snd (fetch_loop E get url (a # [a + 1..MAX_RETRIES E]) le'))"
    by blast
  have "length evs = nat (a - 1)" using len assms(1) by simp
  moreover have "fetch_data E get url =
              (evs @ fst (fetch_loop E get url (a # [a + 1..MAX_RETRIES E]) le'),
               snd (fetch_loop E get url (a # [a + 1..MAX_RETRIES E]) le'))"
    unfolding fetch_data_def upto_split_at [OF assms(1,2)] run ..
  ultimately show ?thesis by blast
qed

lemma try_block_no_write:
  "try_block url rep = Inr (evs, res) \<Longrightarrow> filter is_batch_write evs = []"
  by (auto simp: try_block_def py_sleep_def
      split: option.splits reply.splits header.splits content.splits if_splits)

lemma fetch_loop_no_write:
  "filter is_batch_write (fst (fetch_loop E get url as le)) = []"
proof (induction as arbitrary: le)
  case Nil
  show ?case by simp
next
  case (Cons a as)
  show ?case
  proof (cases "try_block url (get url a)")
    case (Inl exc)
    with Cons [of "Some exc"] show ?thesis by (auto split: prod.splits)
  next
    case (Inr out)
    obtain evs0 res where out: "out = (evs0, res)" by (cases out)
    from try_block_no_write Inr out have "filter is_batch_write evs0 = []" by blast
    with Cons [of le] Inr out show ?thesis
      by (cases res) (auto split: prod.splits)
  qed
qed

text \<open>
  At a URL without a scheme the request is never built: every attempt raises the
  \<open>ValueError\<close> of \<open>Request\<close>, whatever \<open>urlopen\<close> would do, and backs off.
\<close>

lemma fetch_data_no_scheme:
  "fetch_data example_env get [] =
     ([Sleep 2, Sleep 4, Sleep 8], Inl (FetchFailed 3 (Some UnknownUrlType)))"
  by (simp add: fetch_data_def max_retries_example upto_1_3 try_block_def request_no_scheme
      except_wait_def)

subsection \<open>C3: the processing stage and malformed records\<close>

text \<open>
  C3 (as amended). For every input sequence whose elements are all JSON objects (dicts),
  \<open>process_data\<close> returns a result and raises nothing: the accepted output holds
  exactly the transformed records that passed \<open>validate_item\<close>, in input order, the
  \<open>j\<close>-th of them stamped with the clock readings \<open>2j\<close> and \<open>2j + 1\<close>; a record
  that fails validation is left out and the batch goes on.
\<close>

theorem process_data_returns_on_dicts:
  assumes "\<forall>item\<in>set raw. is_dict item"
  shows "\<exists>valid. process_data E clk (JList raw) = Inr valid
            \<and> length valid = length (filter accepted raw)
            \<and> map Inr valid =
                map (\<lambda>(j, item). transform_item E (clk (2 * j)) (clk (2 * j + 1)) item)
                  (enumerate 0 (filter accepted raw))"
proof -
  from process_loop_dicts [OF assms, of E clk 0 "[]" 0] obtain new where
    loop: "process_loop E clk 0 raw [] 0 =
             Inr (new, length (filter (\<lambda>item. \<not> accepted item) raw))"
    and tr: "map Inr new =
             map (\<lambda>(j, item). transform_item E (clk (2 * j)) (clk (2 * j + 1)) item)
               (enumerate 0 (filter accepted raw))"
    by auto
  have "length (map (Inr :: nrec \<Rightarrow> exn + nrec) new) = length (enumerate 0 (filter accepted raw))"
    by (simp only: tr length_map)
  then have len: "length new = length (filter accepted raw)" by simp
  have "process_data E clk (JList raw) = Inr new"
    by (simp add: process_data_list loop)
  with len tr show ?thesis by (intro exI [of _ new] conjI)
qed

theorem process_data_returns_on_dicts_witness:
  "is_dict example_record \<and> is_dict (JDict [(lit ''id'', JNull)])
   \<and> (\<exists>valid. process_data example_env example_clock
                 (JList [example_record, JDict [(lit ''id'', JNull)]]) = Inr valid
        \<and> length valid = 1)"
proof -
  have d: "\<forall>item\<in>set [example_record, JDict [(lit ''id'', JNull)]]. is_dict item"
    by (simp add: example_record_def)
  have "\<not> accepted (JDict [(lit ''id'', JNull)])"
    by (simp add: accepted_def validate_item_dict admitted_def required_def)
  then have "length (filter accepted [example_record, JDict [(lit ''id'', JNull)]]) = 1"
    by (simp add: example_record_accepted)
  with process_data_returns_on_dicts [OF d, of example_env example_clock] d
  show ?thesis by auto
qed

text \<open>
  For elements of any shape the property fails: an element that is not a dict
  (here the number 5) makes \<open>validate_item\<close> raise \<open>TypeError\<close>, which
  \<open>process_data\<close> does not catch, and the valid record before it is lost with the batch.
\<close>

theorem process_data_raises_on_non_dict:
  "process_data example_env example_clock (JList [example_record, JInt 5]) = Inl TypeError"
  by (simp add: process_data_def example_record_def validate_item_def required_def lit_def
      transform_item_def)

subsection \<open>C4: where a normalized record comes from\<close>

text \<open>
  C4 (as amended). Every record in the output of \<open>process_data\<close> is
  \<open>transform_item\<close> of an input record on which \<open>validate_item\<close> returned \<open>True\<close>
  (no record failing validation is transformed), and its \<open>id\<close> is \<open>str()\<close> of that
  record's \<open>id\<close>; it is empty exactly when the raw \<open>id\<close> is the empty string.
\<close>

theorem normalized_record_from_validated:
  assumes "process_data E clk (JList raw) = Inr valid" and "r \<in> set valid"
  shows "\<exists>item v t1 t2. item \<in> set raw \<and> validate_item item = Inr True
            \<and> transform_item E t1 t2 item = Inr r
            \<and> py_getitem item (lit ''id'') = Inr v \<and> id' r = py_str E v
            \<and> ((id' r = []) = (v = JStr []))"
proof -
  from assms(1) obtain invalid where
    loop: "process_loop E clk 0 raw [] 0 = Inr (valid, invalid)"
    by (auto simp: process_data_def split: sum.splits)
  from process_loop_sound [OF loop assms(2)] obtain item t1 t2 where
    item: "item \<in> set raw" and ok: "validate_item item = Inr True"
    and tr: "transform_item E t1 t2 item = Inr r"
    by auto
  from ok obtain kvs where dict: "item = JDict kvs" and all: "list_all (admitted kvs) required"
    by (rule validate_item_True_dict)
  from all have "admitted kvs (lit ''id'')" "admitted kvs (lit ''title'')"
    "admitted kvs (lit ''body'')" "admitted kvs (lit ''userId'')"
    by (simp_all add: required_def)
  then obtain v t b u where
    v: "map_of kvs (lit ''id'') = Some v" and inst: "isinstance_str_int v"
    and rest: "map_of kvs (lit ''title'') = Some t" "map_of kvs (lit ''body'') = Some b"
      "map_of kvs (lit ''userId'') = Some u"
    by (blast dest: admitted_Some)
  from tr have idr: "id' r = py_str E v"
    unfolding dict transform_item_dict [OF v rest] by auto
  have get: "py_getitem item (lit ''id'') = Inr v"
    unfolding dict by (simp add: v)
  from idr inst have "(id' r = []) = (v = JStr [])"
    by (simp add: py_str_empty_iff)
  with item ok tr get idr show ?thesis by blast
qed

theorem normalized_record_from_validated_witness:
  "\<exists>item v t1 t2. item \<in> set [example_record] \<and> validate_item item = Inr True
      \<and> transform_item example_env t1 t2 item = Inr example_record_out
      \<and> py_getitem item (lit ''id'') = Inr v \<and> id' example_record_out = py_str example_env v
      \<and> ((id' example_record_out = []) = (v = JStr []))"
  using normalized_record_from_validated [OF process_example_record, of example_record_out]
  by simp

text \<open>
  The \<open>id\<close> need not be non-empty: validation checks presence and type only, so a record
  whose \<open>id\<close> is the empty string is accepted and keeps it.
\<close>

theorem normalized_record_empty_id:
  "process_data example_env example_clock (JList [empty_id_record]) =
     Inr [\<lparr>id' = [], timestamp = lit ''0'', title = lit ''t'', body = lit ''b'',
           user_id = lit ''1'', source_url = lit ''https://jsonplaceholder.typicode.com/posts'',
           processed_at = lit ''1''\<rparr>]"
  apply (simp add: process_data_def empty_id_record_def validate_item_dict admitted_def required_def transform_item_def)
  apply (simp add: lit_def example_env_def example_clock_def strip_def isspace_def)
  apply code_simp
  done

subsection \<open>C5: rejected records\<close>

text \<open>
  C5 (as amended). A record (a dict) that lacks one of the required fields \<open>id\<close>,
  \<open>title\<close>, \<open>body\<close>, \<open>userId\<close>, or holds for one of them a value that is not a string,
  an integer or a boolean (\<open>null\<close>, a float, a list, an object), fails
  \<open>validate_item\<close>; wherever it stands in the batch, the loop of \<open>process_data\<close>
  ends with the accepted list it would have without that record and with a rejected
  count exactly one higher, and \<open>process_data\<close> returns what it returns without it.
\<close>

theorem rejected_record_excluded_and_counted:
  assumes "field \<in> set required"
    and "map_of kvs field = None \<or> (\<exists>v. map_of kvs field = Some v \<and> \<not> isinstance_str_int v)"
  shows "validate_item (JDict kvs) = Inr False
       \<and> process_loop E clk c (pre @ JDict kvs # post) valid invalid =
           map_sum id (\<lambda>(v, n). (v, n + 1)) (process_loop E clk c (pre @ post) valid invalid)
       \<and> process_data E clk (JList (pre @ JDict kvs # post)) = process_data E clk (JList (pre @ post))"
proof -
  from assms(2) have "\<not> admitted kvs field"
    by (auto simp: admitted_def)
  with assms(1) have "\<not> list_all (admitted kvs) required"
    by (auto simp: list_all_iff)
  then have no: "validate_item (JDict kvs) = Inr False"
    by (simp add: validate_item_dict)
  have loop: "process_loop E clk c (pre @ JDict kvs # post) valid invalid =
           map_sum id (\<lambda>(v, n). (v, n + 1)) (process_loop E clk c (pre @ post) valid invalid)"
    for c valid invalid
    using process_loop_drop_rejected [OF no] by simp
  have "process_data E clk (JList (pre @ JDict kvs # post)) = process_data E clk (JList (pre @ post))"
    unfolding process_data_list loop
    by (cases "process_loop E clk 0 (pre @ post) [] 0") auto
  with no loop show ?thesis by simp
qed

theorem rejected_record_excluded_and_counted_witness:
  "validate_item no_user_record = Inr False
   \<and> process_loop example_env example_clock 0 [example_record, no_user_record] [] 0
       = Inr ([example_record_out], 1)
   \<and> process_data example_env example_clock (JList [example_record, no_user_record])
       = Inr [example_record_out]
   \<and> validate_item float_id_record = Inr False
   \<and> process_data example_env example_clock (JList [float_id_record, example_record])
       = Inr [example_record_out]"
proof -
  have f: "lit ''userId'' \<in> set required" and g: "lit ''id'' \<in> set required"
    by (simp_all add: required_def)
  have m: "map_of [(lit ''id'', JInt 8), (lit ''title'', JStr (lit ''t'')), (lit ''body'', JStr (lit ''b''))]
             (lit ''userId'') = None
           \<or> (\<exists>v. map_of [(lit ''id'', JInt 8), (lit ''title'', JStr (lit ''t'')), (lit ''body'', JStr (lit ''b''))]
             (lit ''userId'') = Some v \<and> \<not> isinstance_str_int v)"
    by (simp add: lit_def)
  have n: "map_of [(lit ''id'', JFloat (lit ''8.5'')), (lit ''title'', JStr (lit ''t'')),
            (lit ''body'', JStr (lit ''b'')), (lit ''userId'', JInt 1)] (lit ''id'') = None
          \<or> (\<exists>v. map_of [(lit ''id'', JFloat (lit ''8.5'')), (lit ''title'', JStr (lit ''t'')),
            (lit ''body'', JStr (lit ''b'')), (lit ''userId'', JInt 1)] (lit ''id'') = Some v \<and> \<not> isinstance_str_int v)"
    by simp
  have one: "process_loop example_env example_clock 0 [example_record] [] 0 = Inr ([example_record_out], 0)"
    by (simp add: example_record_validates transform_example_record
      example_clock_0 example_clock_1) (simp add: example_record_out_def)
  note A = rejected_record_excluded_and_counted
    [OF f m, of example_env example_clock 0 "[example_record]" "[]" "[]" 0]
  note B = rejected_record_excluded_and_counted
    [OF g n, of example_env example_clock 0 "[]" "[example_record]" "[]" 0]
  have a1: "validate_item no_user_record = Inr False"
    unfolding no_user_record_def by (rule A [THEN conjunct1])
  have a2: "process_loop example_env example_clock 0 ([example_record] @ no_user_record # []) [] 0
       = Inr ([example_record_out], 1)"
    unfolding no_user_record_def A [THEN conjunct2, THEN conjunct1]
    by (simp add: one del: process_loop.simps)
  have a3: "process_data example_env example_clock (JList ([example_record] @ no_user_record # []))
       = Inr [example_record_out]"
    unfolding no_user_record_def A [THEN conjunct2, THEN conjunct2]
    by (simp add: process_example_record)
  have b1: "validate_item float_id_record = Inr False"
    unfolding float_id_record_def by (rule B [THEN conjunct1])
  have b3: "process_data example_env example_clock (JList ([] @ float_id_record # [example_record]))
       = Inr [example_record_out]"
    unfolding float_id_record_def B [THEN conjunct2, THEN conjunct2]
    by (simp add: process_example_record)
  from a1 a2 a3 b1 b3 show ?thesis
    by (simp del: process_loop.simps)
qed

text \<open>
  A boolean is not rejected: \<open>isinstance\<close> takes it for an \<open>int\<close>, so a record whose
  \<open>id\<close> is \<open>true\<close> is accepted, appears in the output with \<open>id\<close> \<open>"True"\<close>, and the
  rejected count stays 0.
\<close>

theorem boolean_field_not_rejected:
  "validate_item bool_id_record = Inr True
   \<and> process_loop example_env example_clock 0 [bool_id_record] [] 0 =
       Inr ([\<lparr>id' = lit ''True'', timestamp = lit ''0'', title = lit ''t'', body = lit ''b'',
              user_id = lit ''1'', source_url = lit ''https://jsonplaceholder.typicode.com/posts'',
              processed_at = lit ''1''\<rparr>], 0)"
proof -
  have v: "validate_item bool_id_record = Inr True"
    by (simp add: bool_id_record_def validate_item_dict admitted_def required_def lit_def)
  have t: "transform_item example_env (example_clock 0) (example_clock (Suc 0)) bool_id_record =
      Inr \<lparr>id' = lit ''True'', timestamp = lit ''0'', title = lit ''t'', body = lit ''b'',
              user_id = lit ''1'', source_url = lit ''https://jsonplaceholder.typicode.com/posts'',
              processed_at = lit ''1''\<rparr>"
    unfolding bool_id_record_def
    apply (subst transform_item_dict [where i = "JBool True" and t = "JStr (lit ''t'')"
          and b = "JStr (lit ''b'')" and u = "JInt 1"])
        apply (simp_all add: lit_def)[4]
    apply (simp add: str_bool_def str_int_1 example_clock_0 example_clock_1 example_env_def)
    apply (simp add: lit_def strip_def isspace_def)
    done
  show ?thesis by (simp add: v t)
qed

subsection \<open>C6: trimming and truncation\<close>

text \<open>
  C6. In the record \<open>transform_item\<close> builds, \<open>title\<close> is the first 500 characters
  of the trimmed \<open>str()\<close> of the input's \<open>title\<close>: when the trimmed text is longer
  than 500 characters, the output has length exactly 500 and is a prefix of the trimmed
  input. Likewise \<open>body\<close> is trimmed and then cut to 2000 characters. Characters are
  code points, and the cut comes after the trimming.
\<close>

theorem transform_item_truncates:
  assumes "py_getitem item (lit ''title'') = Inr t"
    and "py_getitem item (lit ''body'') = Inr b"
    and "transform_item E t1 t2 item = Inr r"
  shows "(500 < length (strip (py_str E t)) \<longrightarrow>
            length (title r) = 500 \<and> prefix (title r) (strip (py_str E t)))
       \<and> (2000 < length (strip (py_str E b)) \<longrightarrow>
            length (body r) = 2000 \<and> prefix (body r) (strip (py_str E b)))
       \<and> title r = take 500 (strip (py_str E t))
       \<and> body r = take 2000 (strip (py_str E b))"
proof -
  from assms have "title r = take 500 (strip (py_str E t))"
    and "body r = take 2000 (strip (py_str E b))"
    by (auto simp: transform_item_def split: sum.splits)
  then show ?thesis by (simp add: take_is_prefix)
qed

theorem transform_item_truncates_witness:
  "500 < length (strip (32 # replicate 501 97 @ [10]))
   \<and> 2000 < length (strip (replicate 2001 98 @ [32, 32]))
   \<and> (\<exists>r. transform_item example_env [] [] long_record = Inr r
         \<and> title r = replicate 500 97 \<and> length (title r) = 500
         \<and> prefix (title r) (strip (32 # replicate 501 97 @ [10]))
         \<and> body r = replicate 2000 98 \<and> length (body r) = 2000
         \<and> prefix (body r) (strip (replicate 2001 98 @ [32, 32])))"
proof -
  have s1: "strip (32 # replicate 501 97 @ [10]) = replicate 501 97"
    using strip_padded_replicate [of 97 "[32]" "[10]" 500] by (simp add: isspace_def)
  have s2: "strip (replicate 2001 98 @ [32, 32]) = replicate 2001 98"
    using strip_padded_replicate [of 98 "[]" "[32, 32]" 2000] by (simp add: isspace_def)
  have t: "py_getitem long_record (lit ''title'') = Inr (JStr (32 # replicate 501 97 @ [10]))"
    and b: "py_getitem long_record (lit ''body'') = Inr (JStr (replicate 2001 98 @ [32, 32]))"
    by (simp_all add: long_record_def lit_def)
  obtain r where r: "transform_item example_env [] [] long_record = Inr r"
    by (auto simp: transform_item_def long_record_def lit_def)
  from transform_item_truncates [OF t b r] r show ?thesis
    by (auto simp: s1 s2)
qed

subsection \<open>C9: transforming the same record twice\<close>

text \<open>
  C9. Transforming the same validated record twice, at different times, succeeds both
  times, and the two normalized records differ at most in \<open>timestamp\<close> and
  \<open>processed_at\<close>: \<open>id\<close>, \<open>title\<close>, \<open>body\<close>, \<open>user_id\<close> (and \<open>source_url\<close>) are
  identical.
\<close>

theorem transform_item_twice:
  assumes "validate_item item = Inr True"
  shows "\<exists>r r'. transform_item E t1 t2 item = Inr r \<and> transform_item E t1' t2' item = Inr r'
           \<and> r' = r\<lparr>timestamp := t1', processed_at := t2'\<rparr>
           \<and> id' r' = id' r \<and> title r' = title r \<and> body r' = body r
           \<and> user_id r' = user_id r \<and> source_url r' = source_url r"
proof -
  from assms obtain kvs where item: "item = JDict kvs" and all: "list_all (admitted kvs) required"
    by (rule validate_item_True_dict)
  from all have "admitted kvs (lit ''id'')" "admitted kvs (lit ''title'')"
    "admitted kvs (lit ''body'')" "admitted kvs (lit ''userId'')"
    by (simp_all add: required_def)
  then obtain i t b u where f: "map_of kvs (lit ''id'') = Some i" "map_of kvs (lit ''title'') = Some t"
    "map_of kvs (lit ''body'') = Some b" "map_of kvs (lit ''userId'') = Some u"
    by (blast dest: admitted_Some)
  show ?thesis
    unfolding item transform_item_dict [OF f] by simp
qed

theorem transform_item_twice_witness:
  "validate_item example_record = Inr True
   \<and> (\<exists>r r'. transform_item example_env (lit ''a'') (lit ''b'') example_record = Inr r
         \<and> transform_item example_env (lit ''c'') (lit ''d'') example_record = Inr r'
         \<and> r' = r\<lparr>timestamp := lit ''c'', processed_at := lit ''d''\<rparr>
         \<and> id' r' = id' r \<and> title r' = title r \<and> body r' = body r
         \<and> user_id r' = user_id r \<and> source_url r' = source_url r)"
  using transform_item_twice [OF example_record_validates, of example_env "lit ''a''" "lit ''b''" "lit ''c''" "lit ''d''"]
    example_record_validates
  by blast

subsection \<open>C10: booleans\<close>

text \<open>
  C10. A record in which each of the required fields \<open>id\<close>, \<open>title\<close>, \<open>body\<close>,
  \<open>userId\<close> holds a boolean is accepted by \<open>validate_item\<close> (\<open>isinstance\<close> takes a
  \<open>bool\<close> for an \<open>int\<close>), and \<open>transform_item\<close> stringifies the booleans: the
  normalized record holds \<open>"True"\<close> or \<open>"False"\<close> in each of the four fields.
\<close>

theorem booleans_pass_as_integers:
  assumes "map_of kvs (lit ''id'') = Some (JBool a)"
    and "map_of kvs (lit ''title'') = Some (JBool b)"
    and "map_of kvs (lit ''body'') = Some (JBool c)"
    and "map_of kvs (lit ''userId'') = Some (JBool d)"
  shows "validate_item (JDict kvs) = Inr True
       \<and> transform_item E t1 t2 (JDict kvs) =
           Inr \<lparr>id' = str_bool a, timestamp = t1, title = str_bool b, body = str_bool c,
                user_id = str_bool d, source_url = API_URL E, processed_at = t2\<rparr>
       \<and> str_bool True = lit ''True'' \<and> str_bool False = lit ''False''"
proof -
  have "validate_item (JDict kvs) = Inr True"
    using assms by (simp add: validate_item_dict required_def admitted_def)
  moreover have "transform_item E t1 t2 (JDict kvs) =
           Inr \<lparr>id' = str_bool a, timestamp = t1, title = str_bool b, body = str_bool c,
                user_id = str_bool d, source_url = API_URL E, processed_at = t2\<rparr>"
    unfolding transform_item_dict [OF assms]
    by (simp add: strip_str_bool take_str_bool)
  ultimately show ?thesis by (simp add: str_bool_def)
qed

theorem booleans_pass_as_integers_witness:
  "validate_item bool_record = Inr True
   \<and> process_data example_env example_clock (JList [bool_record]) =
       Inr [\<lparr>id' = lit ''True'', timestamp = lit ''0'', title = lit ''False'', body = lit ''True'',
             user_id = lit ''False'', source_url = lit ''https://jsonplaceholder.typicode.com/posts'',
             processed_at = lit ''1''\<rparr>]"
proof -
  have m: "map_of [(lit ''id'', JBool True), (lit ''title'', JBool False),
            (lit ''body'', JBool True), (lit ''userId'', JBool False)] (lit ''id'') = Some (JBool True)"
    "map_of [(lit ''id'', JBool True), (lit ''title'', JBool False),
            (lit ''body'', JBool True), (lit ''userId'', JBool False)] (lit ''title'') = Some (JBool False)"
    "map_of [(lit ''id'', JBool True), (lit ''title'', JBool False),
            (lit ''body'', JBool True), (lit ''userId'', JBool False)] (lit ''body'') = Some (JBool True)"
    "map_of [(lit ''id'', JBool True), (lit ''title'', JBool False),
            (lit ''body'', JBool True), (lit ''userId'', JBool False)] (lit ''userId'') = Some (JBool False)"
    by (simp_all add: lit_def)
  note A = booleans_pass_as_integers [OF m, of example_env "example_clock 0" "example_clock (Suc 0)"]
  have v: "validate_item bool_record = Inr True"
    unfolding bool_record_def by (rule A [THEN conjunct1])
  have t: "transform_item example_env (example_clock 0) (example_clock (Suc 0)) bool_record =
      Inr \<lparr>id' = lit ''True'', timestamp = lit ''0'', title = lit ''False'', body = lit ''True'',
             user_id = lit ''False'', source_url = lit ''https://jsonplaceholder.typicode.com/posts'',
             processed_at = lit ''1''\<rparr>"
    unfolding bool_record_def A [THEN conjunct2, THEN conjunct1]
    by (simp add: str_bool_def example_clock_0 example_clock_1 example_env_def)
  show ?thesis
    by (simp add: process_data_def v t)
qed

subsection \<open>C1: a rate limit with a \<open>Retry-After\<close> value\<close>

lemma response_429_honours_retry_after:
  "Request url = None \<Longrightarrow> 0 \<le> d \<Longrightarrow>
     try_block url (Response 429 (Int_text d) b) = Inr ([Sleep d], None)"
  by (simp add: try_block_def py_sleep_def)

text \<open>
  C1. An attempt that meets a rate limit (429) carrying a \<open>Retry-After\<close> value \<open>d\<close> should
  wait exactly \<open>d\<close> seconds. The code does so only when \<open>urlopen\<close> returns the 429 as a
  response. When \<open>urlopen\<close> raises it as an \<open>HTTPError\<close> (what \<open>urllib\<close> does for a
  429), the handler never reads the header: with \<open>Retry-After: 7\<close> on every attempt the
  run of three attempts sleeps 2, 4 and 8 seconds, the exponential backoff.
\<close>

theorem http_error_429_ignores_retry_after:
  "fetch_data example_env raises_429_retry_after_7 (API_URL example_env) =
     ([Sleep 2, Sleep 4, Sleep 8], Inl (FetchFailed 3 (Some (HTTPError 429 (Int_text 7)))))"
  by (simp add: fetch_data_def max_retries_example upto_1_3 raises_429_retry_after_7_def
      try_block_def request_example_url except_wait_def)

subsection \<open>C2: the exponential backoff\<close>

text \<open>
  C2. Let attempt \<open>a\<close> with \<open>1 \<le> a < MAX_RETRIES\<close> be reached (no earlier attempt
  returned data), on a reply \<open>urlopen\<close> can deliver. If the attempt fails on a
  transient error (the request cannot be built, a network error, an \<open>HTTPError\<close> other
  than 429, an unreadable body) or on a rate limit without an advisory duration (an
  \<open>HTTPError\<close> 429 with no \<open>Retry-After\<close> header), the wait before the next attempt,
  the \<open>a\<close>-th sleep of the run, is exactly \<open>2^a\<close> seconds.
\<close>

theorem backoff_wait:
  assumes "1 \<le> a" and "a < MAX_RETRIES E"
    and "\<forall>b\<in>{1..<a}. \<not> succeeds url (get url b)"
    and "stock (get url a)" and "\<not> succeeds url (get url a)" and "\<not> advised (get url a)"
  shows "nat (a - 1) < length (fst (fetch_data E get url))
       \<and> fst (fetch_data E get url) ! nat (a - 1) = Sleep (2 ^ nat a)"
proof -
  from try_block_stock_fails [OF assms(4,5)] obtain exc where
    exc: "try_block url (get url a) = Inl exc" by blast
  from assms(2) have le: "a \<le> MAX_RETRIES E" by simp
  from fetch_data_reaches [where get = get and url = url, OF assms(1) le assms(3)]
  obtain evs le' where len: "length evs = nat (a - 1)"
    and run: "fetch_data E get url =
              (evs @ fst (fetch_loop E get url (a # [a + 1..MAX_RETRIES E]) le'),
               snd (fetch_loop E get url (a # [a + 1..MAX_RETRIES E]) le'))"
    by blast
  have "fst (fetch_data E get url) =
          evs @ Sleep (2 ^ nat a) # fst (fetch_loop E get url [a + 1..MAX_RETRIES E] (Some exc))"
    unfolding run fetch_loop_head_raises [where get = get and url = url, OF exc] by simp
  with len show ?thesis by (simp add: nth_append)
qed

theorem backoff_wait_witness:
  "stock (fails_then_throttled (API_URL example_env) 1)
   \<and> stock (fails_then_throttled (API_URL example_env) 2)
   \<and> fst (fetch_data example_env fails_then_throttled (API_URL example_env)) ! 0 = Sleep 2
   \<and> fst (fetch_data example_env fails_then_throttled (API_URL example_env)) ! 1 = Sleep 4"
proof -
  let ?u = "API_URL example_env"
  have st: "stock (fails_then_throttled ?u 1)" "stock (fails_then_throttled ?u 2)"
    by (simp_all add: stock_def fails_then_throttled_def)
  have s1: "\<not> succeeds ?u (fails_then_throttled ?u 1)"
    and s2: "\<not> succeeds ?u (fails_then_throttled ?u 2)"
    by (simp_all add: succeeds_def fails_then_throttled_def try_block_def request_example_url)
  have ad: "\<not> advised (fails_then_throttled ?u 1)" "\<not> advised (fails_then_throttled ?u 2)"
    by (simp_all add: fails_then_throttled_def)
  have p1: "\<forall>b\<in>{1..<1::int}. \<not> succeeds ?u (fails_then_throttled ?u b)" by simp
  have "{1..<2::int} = {1}" by auto
  then have p2: "\<forall>b\<in>{1..<2::int}. \<not> succeeds ?u (fails_then_throttled ?u b)"
    using s1 by simp
  have m: "(1::int) < MAX_RETRIES example_env" "(2::int) < MAX_RETRIES example_env"
    by (simp_all add: max_retries_example)
  from backoff_wait [where get = fails_then_throttled and url = ?u and a = 1,
      OF _ m(1) p1 st(1) s1 ad(1)]
  have "fst (fetch_data example_env fails_then_throttled ?u) ! 0 = Sleep 2" by simp
  moreover from backoff_wait [where get = fails_then_throttled and url = ?u and a = 2,
      OF _ m(2) p2 st(2) s2 ad(2)]
  have "fst (fetch_data example_env fails_then_throttled ?u) ! 1 = Sleep 4" by simp
  ultimately show ?thesis using st by simp
qed

subsection \<open>C7: no valid records\<close>

text \<open>
  C7. Whenever the table is healthy, the fetch returns data and \<open>process_data\<close> yields
  no accepted record, \<open>lambda_handler\<close> returns the failure result (status 500) whose
  error is \<open>ValueError("No valid records after validation")\<close>, after the \<open>Errors = 1\<close>
  metric, and the store stage is not invoked: the run has no \<open>Batch_write\<close> event.
\<close>

theorem no_valid_records_failure:
  assumes "health_check E W"
    and "fetch_data E (urlopen W) (API_URL E) = (evs, Inr raw_data)"
    and "process_data E (now W) raw_data = Inr []"
  shows "lambda_handler E W =
           (evs @ [Put_metric ''Errors'' (Count 1)],
            Result 500 (ERROR (ValueError ''No valid records after validation'')))
       \<and> filter is_batch_write (fst (lambda_handler E W)) = []"
proof -
  have run: "lambda_handler E W =
           (evs @ [Put_metric ''Errors'' (Count 1)],
            Result 500 (ERROR (ValueError ''No valid records after validation'')))"
    using assms by (simp add: lambda_handler_def handler_try_def put_metric_def)
  have "filter is_batch_write (fst (fetch_data E (urlopen W) (API_URL E))) = []"
    unfolding fetch_data_def by (rule fetch_loop_no_write)
  then have "filter is_batch_write evs = []"
    by (simp add: assms(2))
  with run show ?thesis by simp
qed

theorem no_valid_records_failure_witness:
  "health_check example_env rejecting_world
   \<and> process_data example_env (now rejecting_world) (JList [no_user_record, float_id_record]) = Inr []
   \<and> lambda_handler example_env rejecting_world =
       ([Put_metric ''Errors'' (Count 1)],
        Result 500 (ERROR (ValueError ''No valid records after validation'')))
   \<and> filter is_batch_write (fst (lambda_handler example_env rejecting_world)) = []"
proof -
  have h: "health_check example_env rejecting_world"
    by (simp add: health_check_def rejecting_world_def)
  have f: "fetch_data example_env (urlopen rejecting_world) (API_URL example_env) =
      ([], Inr (JList [no_user_record, float_id_record]))"
    by (simp add: fetch_data_def max_retries_example upto_1_3 rejecting_world_def try_block_def
        request_example_url)
  have p: "process_data example_env (now rejecting_world) (JList [no_user_record, float_id_record]) = Inr []"
    by (simp add: process_data_def no_user_record_def float_id_record_def validate_item_dict
        admitted_def required_def lit_def)
  from no_valid_records_failure [OF h f p] h p show ?thesis by simp
qed

subsection \<open>C8: exhausting the attempts\<close>

text \<open>
  C8 (as amended). If none of the attempts \<open>1..MAX_RETRIES\<close> returns data, on replies
  \<open>urlopen\<close> can deliver, \<open>fetch_data\<close> sleeps once per attempt and raises the terminal
  failure carrying \<open>MAX_RETRIES\<close> and the last underlying error: the exception raised
  by the last attempt (none when \<open>MAX_RETRIES\<close> allows no attempt). A rate limit, which
  arrives as an \<open>HTTPError\<close> 429, is recorded like any other exception.
\<close>

theorem fetch_exhausted_failure:
  assumes "\<forall>a\<in>{1..MAX_RETRIES E}. stock (get url a) \<and> \<not> succeeds url (get url a)"
  shows "length (fst (fetch_data E get url)) = nat (MAX_RETRIES E)
       \<and> (if MAX_RETRIES E < 1
           then snd (fetch_data E get url) = Inl (FetchFailed (MAX_RETRIES E) None)
           else \<exists>exc. try_block url (get url (MAX_RETRIES E)) = Inl exc
                  \<and> snd (fetch_data E get url) = Inl (FetchFailed (MAX_RETRIES E) (Some exc)))"
proof (cases "MAX_RETRIES E < 1")
  case True
  then have "[1..MAX_RETRIES E] = []" by simp
  with True show ?thesis by (simp add: fetch_data_def)
next
  case False
  then have one: "1 \<le> MAX_RETRIES E" by simp
  have "stock (get url (MAX_RETRIES E))" "\<not> succeeds url (get url (MAX_RETRIES E))"
    using assms one by simp_all
  from try_block_stock_fails [OF this] obtain exc where
    exc: "try_block url (get url (MAX_RETRIES E)) = Inl exc" by blast
  have "\<forall>b\<in>{1..<MAX_RETRIES E}. \<not> succeeds url (get url b)"
    using assms by simp
  from fetch_data_reaches [where get = get and url = url, OF one order_refl this]
  obtain evs le' where len: "length evs = nat (MAX_RETRIES E - 1)"
    and run: "fetch_data E get url =
              (evs @ fst (fetch_loop E get url (MAX_RETRIES E # [MAX_RETRIES E + 1..MAX_RETRIES E]) le'),
               snd (fetch_loop E get url (MAX_RETRIES E # [MAX_RETRIES E + 1..MAX_RETRIES E]) le'))"
    by blast
  have "fetch_data E get url =
      (evs @ [Sleep (2 ^ nat (MAX_RETRIES E))], Inl (FetchFailed (MAX_RETRIES E) (Some exc)))"
    unfolding run fetch_loop_head_raises [where get = get and url = url, OF exc] by simp
  with len one exc False show ?thesis by simp
qed

theorem fetch_exhausted_failure_witness:
  "snd (fetch_data example_env timeout_then_throttled (API_URL example_env)) =
     Inl (FetchFailed 3 (Some (HTTPError 503 Absent)))
   \<and> length (fst (fetch_data example_env timeout_then_throttled (API_URL example_env))) = 3"
proof -
  let ?u = "API_URL example_env"
  have "{1..3::int} = {1, 2, 3}" by auto
  then have "\<forall>a\<in>{1..MAX_RETRIES example_env}.
      stock (timeout_then_throttled ?u a) \<and> \<not> succeeds ?u (timeout_then_throttled ?u a)"
    by (simp add: max_retries_example stock_def succeeds_def timeout_then_throttled_def
        try_block_def request_example_url)
  from fetch_exhausted_failure [where get = timeout_then_throttled and url = ?u, OF this]
  show ?thesis
    by (simp add: max_retries_example timeout_then_throttled_def try_block_def
        request_example_url)
qed

text \<open>
  A 429 does contribute to the last error: three attempts that each meet an
  \<open>HTTPError\<close> 429 end with that error as \<open>last_error\<close>.
\<close>

theorem raised_429_is_last_error:
  "snd (fetch_data example_env raises_429 (API_URL example_env)) =
     Inl (FetchFailed 3 (Some (HTTPError 429 Absent)))"
  by (simp add: fetch_data_def max_retries_example upto_1_3 raises_429_def
      try_block_def request_example_url except_wait_def)


end
